theory Spec2Isabelle
  imports Complex_Main "HOL-Library.Sublist" "HOL-Library.AList" "HOL-Library.Log_Nat"
begin

section \<open>Tables (the part of pandas.DataFrame that results.py uses)\<close>

text \<open>
  A cell is a number, a string or the missing value NaN. A number is the exact value
  of the float64 or the integer that the cell holds, as a rational; infinite values are
  not modelled.
\<close>

datatype cell = Num rat | Str string | NaN

datatype error =
    CalledProcessError
  | ValueError
  | KeyError string
  | TypeError
  | ReadError
  | FileNotFoundError

text \<open>
  A DataFrame is column oriented: the number of rows (the length of its index) and
  the columns in order, each a name with its values.
\<close>

record dataframe =
  nrows :: nat
  cols :: "(string \<times> cell list) list"


definition empty_df :: dataframe where
  \<comment> \<open>\<open>pd.DataFrame()\<close>\<close>
  "empty_df = \<lparr>nrows = 0, cols = []\<rparr>"

definition df_empty :: "dataframe \<Rightarrow> bool" where
  \<comment> \<open>\<open>df.empty\<close>: some axis has length 0\<close>
  "df_empty df \<longleftrightarrow> nrows df = 0 \<or> cols df = []"

definition column_names :: "dataframe \<Rightarrow> string list" where
  "column_names df = map fst (cols df)"

definition get_column :: "dataframe \<Rightarrow> string \<Rightarrow> error + cell list" where
  \<comment> \<open>\<open>df[c]\<close>: KeyError when there is no such column\<close>
  "get_column df c = (case map_of (cols df) c of None \<Rightarrow> Inl (KeyError c) | Some vs \<Rightarrow> Inr vs)"

definition set_column :: "dataframe \<Rightarrow> string \<Rightarrow> cell list \<Rightarrow> dataframe" where
  \<comment> \<open>\<open>df[c] = values\<close>: an existing column is overwritten in place, a new one is appended\<close>
  "set_column df c vs =
     df\<lparr>cols := (if c \<in> set (column_names df)
                  then map (\<lambda>(n, old). if n = c then (n, vs) else (n, old)) (cols df)
                  else cols df @ [(c, vs)])\<rparr>"

definition set_scalar :: "dataframe \<Rightarrow> string \<Rightarrow> cell \<Rightarrow> dataframe" where
  \<comment> \<open>\<open>df[c] = scalar\<close>: the scalar is broadcast over the index\<close>
  "set_scalar df c v = set_column df c (replicate (nrows df) v)"

fun unique :: "'a list \<Rightarrow> 'a list" where
  \<comment> \<open>distinct values in order of first appearance (\<open>Series.unique\<close>, and the column union of \<open>pd.concat\<close>)\<close>
  "unique [] = []"
| "unique (x # xs) = x # unique (filter (\<lambda>y. y \<noteq> x) xs)"

definition column_or_nan :: "string \<Rightarrow> dataframe \<Rightarrow> cell list" where
  \<comment> \<open>the values a frame contributes to column \<open>c\<close> of a concatenation: NaN where it has no such column\<close>
  "column_or_nan c df = (case map_of (cols df) c of None \<Rightarrow> replicate (nrows df) NaN | Some vs \<Rightarrow> vs)"

definition pd_concat :: "dataframe list \<Rightarrow> error + dataframe" where
  \<comment> \<open>\<open>pd.concat(frames, ignore_index=True)\<close>: outer join on the columns; no frames is a ValueError\<close>
  "pd_concat frames =
     (if frames = [] then Inl ValueError
      else Inr \<lparr>nrows = sum_list (map nrows frames),
                cols = map (\<lambda>c. (c, concat (map (column_or_nan c) frames)))
                           (unique (concat (map column_names frames)))\<rparr>)"

section \<open>Configuration classes\<close>

record NetworkProfile =
  latency :: int
  dl_trace :: string
  ul_trace :: string

record TestResult =
  algorithm :: string
  profile :: string
  data :: dataframe

section \<open>The file system and the external collaborators\<close>

text \<open>
  Regular files only: a path, a modification time and the content. Directories are not
  modelled, so the \<open>mkdir\<close> calls have no counterpart. The association list keeps the
  order in which a directory listing yields the files.
\<close>

record fentry =
  mtime :: int
  content :: string

record world =
  files :: "(string \<times> fentry) list"
  now :: int

text \<open>
  The emulation harness with the test driver, and \<open>pd.read_csv\<close>, are outside the
  repository: the first takes the shell command and the world and gives whether the exit
  status was zero together with the world it leaves; the second parses a file's content or
  raises.
\<close>

record env =
  run_cmd :: "string \<Rightarrow> world \<Rightarrow> bool \<times> world"
  read_csv :: "string \<Rightarrow> error + dataframe"

definition exists_file :: "world \<Rightarrow> string \<Rightarrow> bool" where
  "exists_file w p \<longleftrightarrow> map_of (files w) p \<noteq> None"

definition getmtime :: "world \<Rightarrow> string \<Rightarrow> int" where
  \<comment> \<open>\<open>os.path.getmtime\<close>; it is only applied to paths that a listing of the same world gave\<close>
  "getmtime w p = (case map_of (files w) p of None \<Rightarrow> 0 | Some e \<Rightarrow> mtime e)"

definition listdir :: "world \<Rightarrow> string \<Rightarrow> string list" where
  \<comment> \<open>the names of the files directly in directory \<open>d\<close>\<close>
  "listdir w d =
     filter (\<lambda>b. b \<noteq> [] \<and> CHR ''/'' \<notin> set b)
       (map (\<lambda>p. drop (length d + 1) p)
          (filter (\<lambda>p. take (length d + 1) p = d @ ''/'') (map fst (files w))))"

text \<open>
  \<open>fnmatch\<close> on a name and a pattern: \<open>*\<close> matches any run of characters, \<open>?\<close> one
  character, any other character itself. Character classes \<open>[...]\<close> are not modelled.
\<close>

fun fnmatch :: "string \<Rightarrow> string \<Rightarrow> bool" where
  "fnmatch [] [] = True"
| "fnmatch (c # cs) [] = False"
| "fnmatch [] (p # ps) = (p = CHR ''*'' \<and> fnmatch [] ps)"
| "fnmatch (c # cs) (p # ps) =
     (if p = CHR ''*'' then fnmatch (c # cs) ps \<or> fnmatch cs (p # ps)
      else if p = CHR ''?'' then fnmatch cs ps
      else c = p \<and> fnmatch cs ps)"

definition hidden :: "string \<Rightarrow> bool" where
  "hidden s = (case s of [] \<Rightarrow> False | c # _ \<Rightarrow> c = CHR ''.'')"

definition glob :: "world \<Rightarrow> string \<Rightarrow> string \<Rightarrow> string list" where
  \<comment> \<open>\<open>glob.glob(d + "/" + pattern)\<close> for a directory part without wildcards\<close>
  "glob w d pattern =
     map (\<lambda>b. d @ ''/'' @ b)
       (filter (\<lambda>b. (hidden pattern \<or> \<not> hidden b) \<and> fnmatch b pattern) (listdir w d))"

definition copy_file :: "world \<Rightarrow> string \<Rightarrow> string \<Rightarrow> error + world" where
  \<comment> \<open>\<open>shutil.copy\<close>: the content is written to the destination, which gets a fresh modification time\<close>
  "copy_file w src dst =
     (case map_of (files w) src of
        None \<Rightarrow> Inl FileNotFoundError
      | Some e \<Rightarrow> Inr (w\<lparr>files := AList.update dst \<lparr>mtime = now w, content = content e\<rparr> (files w)\<rparr>))"

definition pd_read_csv :: "env \<Rightarrow> world \<Rightarrow> string \<Rightarrow> error + dataframe" where
  "pd_read_csv ev w p =
     (case map_of (files w) p of None \<Rightarrow> Inl FileNotFoundError | Some e \<Rightarrow> read_csv ev (content e))"

section \<open>TestConfig\<close>

definition ALGORITHMS :: "string list" where
  "ALGORITHMS = [''bbr'', ''vivace'', ''vegas'']"

definition PROFILES :: "(string \<times> NetworkProfile) list" where
  \<comment> \<open>the dict, in insertion order\<close>
  "PROFILES =
     [(''low_latency'', \<lparr>latency = 5,
          dl_trace = ''mahimahi/traces/TMobile-LTE-driving.down'',
          ul_trace = ''mahimahi/traces/TMobile-LTE-driving.up''\<rparr>),
      (''high_latency'', \<lparr>latency = 200,
          dl_trace = ''mahimahi/traces/TMobile-LTE-short.down'',
          ul_trace = ''mahimahi/traces/TMobile-LTE-short.up''\<rparr>)]"

section \<open>TestRunner._run_single_test and run_all_tests\<close>

function str_nat :: "nat \<Rightarrow> string" where
  "str_nat n =
     (if n < 10 then [char_of (48 + n)] else str_nat (n div 10) @ [char_of (48 + n mod 10)])"
  by pat_completeness auto
termination
  by (relation "measure id") auto

definition str_int :: "int \<Rightarrow> string" where
  "str_int i = (if i < 0 then ''-'' @ str_nat (nat (- i)) else str_nat (nat i))"

text \<open>
  Paths are joined as strings, which is what \<open>pathlib\<close> does for names that are not
  empty and hold no separator.
\<close>

definition result_path :: "string \<Rightarrow> string \<Rightarrow> string" where
  "result_path profile_id algorithm_id = ''results'' @ ''/'' @ ''profile_'' @ profile_id @ ''/'' @ algorithm_id"

definition cc_log_path :: "string \<Rightarrow> string \<Rightarrow> string" where
  "cc_log_path profile_id algorithm_id =
     result_path profile_id algorithm_id @ ''/'' @ algorithm_id @ ''_cc_log.csv''"

definition test_command :: "string \<Rightarrow> string \<Rightarrow> NetworkProfile \<Rightarrow> string" where
  "test_command algorithm_id profile_id config =
     ''mm-delay '' @ str_int (latency config) @ '' ''
     @ ''mm-link '' @ dl_trace config @ '' '' @ ul_trace config @ '' -- ''
     @ ''bash -c '' @ [CHR 0x27] @ ''python3 tests/test_schemes.py --schemes ''
     @ [CHR 0x22] @ algorithm_id @ [CHR 0x22] @ '' > ''
     @ result_path profile_id algorithm_id @ ''/log.txt 2>&1'' @ [CHR 0x27]"

definition metric_logs :: "world \<Rightarrow> string \<Rightarrow> string list" where
  \<comment> \<open>the matching files of the logs directory, newest first; the sort is stable\<close>
  "metric_logs w algorithm_id =
     sort_key (\<lambda>p. - getmtime w p) (glob w ''logs'' (''metrics_'' @ algorithm_id @ ''_*.csv''))"

definition run_single_test ::
  "env \<Rightarrow> world \<Rightarrow> string \<Rightarrow> string \<Rightarrow> NetworkProfile \<Rightarrow> error + (string option \<times> world)" where
  "run_single_test ev w algorithm_id profile_id config =
     (case run_cmd ev (test_command algorithm_id profile_id config) w of
        (False, w1) \<Rightarrow> Inr (None, w1)
      | (True, w1) \<Rightarrow>
          (case metric_logs w1 algorithm_id of
             [] \<Rightarrow> Inr (None, w1)
           | newest_log # _ \<Rightarrow>
               (case copy_file w1 newest_log (cc_log_path profile_id algorithm_id) of
                  Inl e \<Rightarrow> Inl e
                | Inr w2 \<Rightarrow> Inr (Some (cc_log_path profile_id algorithm_id), w2))))"

definition test_cell ::
  "env \<Rightarrow> string \<Rightarrow> NetworkProfile \<Rightarrow> string \<Rightarrow> TestResult list \<times> world
     \<Rightarrow> error + (TestResult list \<times> world)" where
  \<comment> \<open>the body of the inner loop of \<open>run_all_tests\<close>\<close>
  "test_cell ev profile_id profile_config algorithm_id st =
     (case st of (test_results, w) \<Rightarrow>
      case run_single_test ev w algorithm_id profile_id profile_config of
        Inl e \<Rightarrow> Inl e
      | Inr (None, w1) \<Rightarrow> Inr (test_results, w1)
      | Inr (Some result_file, w1) \<Rightarrow>
          if exists_file w1 result_file then
            (case pd_read_csv ev w1 result_file of
               Inl e \<Rightarrow> Inl e
             | Inr df \<Rightarrow>
                 Inr (test_results @ [\<lparr>algorithm = algorithm_id, profile = profile_id, data = df\<rparr>], w1))
          else Inr (test_results, w1))"

fun algorithms_loop ::
  "env \<Rightarrow> string \<Rightarrow> NetworkProfile \<Rightarrow> string list \<Rightarrow> TestResult list \<times> world
     \<Rightarrow> error + (TestResult list \<times> world)" where
  "algorithms_loop ev profile_id profile_config [] st = Inr st"
| "algorithms_loop ev profile_id profile_config (algorithm_id # rest) st =
     (case test_cell ev profile_id profile_config algorithm_id st of
        Inl e \<Rightarrow> Inl e
      | Inr st' \<Rightarrow> algorithms_loop ev profile_id profile_config rest st')"

fun profiles_loop ::
  "env \<Rightarrow> (string \<times> NetworkProfile) list \<Rightarrow> string list \<Rightarrow> TestResult list \<times> world
     \<Rightarrow> error + (TestResult list \<times> world)" where
  "profiles_loop ev [] algorithms st = Inr st"
| "profiles_loop ev ((profile_id, profile_config) # rest) algorithms st =
     (case algorithms_loop ev profile_id profile_config algorithms st of
        Inl e \<Rightarrow> Inl e
      | Inr st' \<Rightarrow> profiles_loop ev rest algorithms st')"

definition run_all_tests :: "env \<Rightarrow> world \<Rightarrow> error + (TestResult list \<times> world)" where
  "run_all_tests ev w = profiles_loop ev PROFILES ALGORITHMS ([], w)"

section \<open>TestRunner._prepare_data\<close>

definition range_cells :: "nat \<Rightarrow> cell list" where
  \<comment> \<open>\<open>list(range(n))\<close>\<close>
  "range_cells n = map (\<lambda>i. Num (of_nat i)) [0..<n]"

definition prepare_frame :: "TestResult \<Rightarrow> dataframe" where
  \<comment> \<open>the body of the loop: copy the table, then three column assignments\<close>
  "prepare_frame result =
     (let df = data result;
          df = set_scalar df ''scheme'' (Str (algorithm result));
          df = set_scalar df ''profile'' (Str (profile result));
          df = set_column df ''timestamp'' (range_cells (nrows df))
      in df)"

fun prepare_frames :: "TestResult list \<Rightarrow> dataframe list \<Rightarrow> dataframe list" where
  "prepare_frames [] frames = frames"
| "prepare_frames (result # rest) frames = prepare_frames rest (frames @ [prepare_frame result])"

definition prepare_data :: "TestResult list \<Rightarrow> error + dataframe" where
  "prepare_data test_results =
     (let frames = prepare_frames test_results []
      in if frames \<noteq> [] then pd_concat frames else Inr empty_df)"

text \<open>
  The rows of the output that come from the \<open>i\<close>-th result: the frames are concatenated
  in order, so they start after the rows of the results before it.
\<close>

definition row_offset :: "TestResult list \<Rightarrow> nat \<Rightarrow> nat" where
  "row_offset rs i = sum_list (map (\<lambda>r. nrows (data r)) (take i rs))"

definition rows_of :: "TestResult list \<Rightarrow> nat \<Rightarrow> cell list \<Rightarrow> cell list" where
  "rows_of rs i vs = take (nrows (data (rs ! i))) (drop (row_offset rs i) vs)"


section \<open>Sample inputs\<close>

definition sample_table :: dataframe where
  "sample_table = \<lparr>nrows = 2, cols = [(''rtt'', [Num 10, Num 20]), (''scheme'', [Str ''x'', NaN])]\<rparr>"

definition sample_result :: TestResult where
  "sample_result = \<lparr>algorithm = ''bbr'', profile = ''low_latency'', data = sample_table\<rparr>"

section \<open>TestRunner._generate_rtt_summary\<close>




text \<open>
  Arithmetic in float64. \<open>fl\<close> rounds a rational to the nearest float64, ties to the
  even significand: the unit of the last place is \<open>2 ^ (e - 52)\<close> for a value in
  \<open>[2 ^ e, 2 ^ (e + 1))\<close>, and never below \<open>2 ^ - 1074\<close> (gradual underflow). Overflow
  to infinity is not modelled. Each operation is the exact one followed by \<open>fl\<close>.
\<close>

definition pow2 :: "int \<Rightarrow> rat" where
  "pow2 e = (if 0 \<le> e then 2 ^ nat e else 1 / 2 ^ nat (- e))"

definition ilog2 :: "rat \<Rightarrow> int" where
  \<comment> \<open>the exponent \<open>e\<close> with \<open>2 ^ e \<le> x < 2 ^ (e + 1)\<close>, for positive \<open>x\<close>\<close>
  "ilog2 x = (case quotient_of x of (p, q) \<Rightarrow>
                let d = bitlen p - bitlen q in if pow2 d \<le> x then d else d - 1)"

definition round_half_even :: "rat \<Rightarrow> int" where
  "round_half_even x =
     (let f = \<lfloor>x\<rfloor>; d = x - of_int f
      in if d < 1 / 2 then f else if 1 / 2 < d then f + 1 else if even f then f else f + 1)"

definition fl :: "rat \<Rightarrow> rat" where
  "fl x =
     (if x = 0 then 0
      else let e = max (ilog2 \<bar>x\<bar> - 52) (- 1074)
           in sgn x * of_int (round_half_even (\<bar>x\<bar> / pow2 e)) * pow2 e)"

definition fadd :: "rat \<Rightarrow> rat \<Rightarrow> rat" where
  "fadd a b = fl (a + b)"







fun add_blocks :: "rat list \<Rightarrow> rat list \<Rightarrow> rat list \<times> rat list" where
  "add_blocks r xs =
     (if length xs < 8 then (r, xs)
      else add_blocks (map (\<lambda>(a, b). fadd a b) (zip r (take 8 xs))) (drop 8 xs))"

function pairwise_sum :: "rat list \<Rightarrow> rat" where
  "pairwise_sum xs =
     (let n = length xs in
      if n < 8 then foldl fadd 0 xs
      else if n \<le> 128 then
        (case add_blocks (take 8 xs) (drop 8 xs) of (r, rest) \<Rightarrow>
           foldl fadd
             (fadd (fadd (fadd (r ! 0) (r ! 1)) (fadd (r ! 2) (r ! 3)))
                   (fadd (fadd (r ! 4) (r ! 5)) (fadd (r ! 6) (r ! 7))))
             rest)
      else let n2 = n div 2 - (n div 2) mod 8
           in fadd (pairwise_sum (take n2 xs)) (pairwise_sum (drop n2 xs)))"
  by pat_completeness auto
termination
  by (relation "measure length") auto

declare add_blocks.simps [simp del] pairwise_sum.simps [simp del]
















section \<open>The matrix run in the words of the specification\<close>

text \<open>
  \<open>execute\<close> is one cell: the single test, then the table read from the copied
  artifact. \<open>runAll\<close> goes through a sequence of cells in order and keeps the record of
  each cell that has one. \<open>matrix\<close> is the order of the cells: profiles first, and the
  algorithms within each profile.
\<close>

definition execute ::
  "env \<Rightarrow> world \<Rightarrow> string \<Rightarrow> NetworkProfile \<Rightarrow> string \<Rightarrow> error + (TestResult option \<times> world)" where
  "execute ev w profile_id profile_config algorithm_id =
     (case run_single_test ev w algorithm_id profile_id profile_config of
        Inl e \<Rightarrow> Inl e
      | Inr (None, w1) \<Rightarrow> Inr (None, w1)
      | Inr (Some result_file, w1) \<Rightarrow>
          if exists_file w1 result_file then
            (case pd_read_csv ev w1 result_file of
               Inl e \<Rightarrow> Inl e
             | Inr df \<Rightarrow> Inr (Some \<lparr>algorithm = algorithm_id, profile = profile_id, data = df\<rparr>, w1))
          else Inr (None, w1))"

fun runAll ::
  "env \<Rightarrow> (string \<times> NetworkProfile \<times> string) list \<Rightarrow> world \<Rightarrow> error + (TestResult list \<times> world)" where
  "runAll ev [] w = Inr ([], w)"
| "runAll ev ((profile_id, profile_config, algorithm_id) # cells) w =
     (case execute ev w profile_id profile_config algorithm_id of
        Inl e \<Rightarrow> Inl e
      | Inr (None, w1) \<Rightarrow> runAll ev cells w1
      | Inr (Some record, w1) \<Rightarrow>
          (case runAll ev cells w1 of
             Inl e \<Rightarrow> Inl e
           | Inr (records, w2) \<Rightarrow> Inr (record # records, w2)))"

definition matrix ::
  "(string \<times> NetworkProfile) list \<Rightarrow> string list \<Rightarrow> (string \<times> NetworkProfile \<times> string) list" where
  "matrix profiles algorithms =
     concat (map (\<lambda>(profile_id, profile_config).
                    map (\<lambda>algorithm_id. (profile_id, profile_config, algorithm_id)) algorithms)
                 profiles)"

definition cell_key :: "string \<times> NetworkProfile \<times> string \<Rightarrow> string \<times> string" where
  "cell_key c = (case c of (profile_id, profile_config, algorithm_id) \<Rightarrow> (profile_id, algorithm_id))"

definition result_key :: "TestResult \<Rightarrow> string \<times> string" where
  "result_key r = (profile r, algorithm r)"

text \<open>
  A name that is a single path component and has no wildcard: the names for which the
  string model of paths and patterns is the one of \<open>pathlib\<close> and \<open>glob\<close>.
\<close>

definition plain_name :: "string \<Rightarrow> bool" where
  "plain_name s \<longleftrightarrow> s \<noteq> [] \<and> set s \<inter> {CHR ''/'', CHR ''*'', CHR ''?'', CHR ''[''} = {}"

definition metrics_name :: "string \<Rightarrow> string \<Rightarrow> string" where
  \<comment> \<open>the name of an artifact of an algorithm with a distinguishing suffix\<close>
  "metrics_name algorithm_id sfx = ''metrics_'' @ algorithm_id @ ''_'' @ sfx @ ''.csv''"

definition sample_table2 :: dataframe where
  "sample_table2 = \<lparr>nrows = 3, cols = [(''rtt'', [Num 30, Num 40, Num 50])]\<rparr>"

definition sample_result2 :: TestResult where
  "sample_result2 = \<lparr>algorithm = ''vegas'', profile = ''low_latency'', data = sample_table2\<rparr>"

definition sample_env :: env where
  \<comment> \<open>a driver that succeeds and writes nothing; a reader that rejects the empty file\<close>
  "sample_env =
     \<lparr>run_cmd = (\<lambda>cmd w. (True, w)),
      read_csv = (\<lambda>s. if s = [] then Inl ReadError else Inr sample_table)\<rparr>"

definition failing_env :: env where
  \<comment> \<open>a driver that ends with a non-zero status\<close>
  "failing_env = sample_env\<lparr>run_cmd := (\<lambda>cmd w. (False, w))\<rparr>"

definition flaky_env :: env where
  \<comment> \<open>a driver that fails for bbr under low_latency only\<close>
  "flaky_env =
     sample_env\<lparr>run_cmd :=
       (\<lambda>cmd w. (cmd \<noteq> test_command ''bbr'' ''low_latency'' (snd (hd PROFILES)), w))\<rparr>"

definition sample_world :: world where
  "sample_world =
     \<lparr>files =
        [(''logs/metrics_bbr_1.csv'', \<lparr>mtime = 1, content = ''rtt,1''\<rparr>),
         (''logs/metrics_bbr_2.csv'', \<lparr>mtime = 2, content = ''rtt,2''\<rparr>),
         (''logs/metrics_bbrplus_3.csv'', \<lparr>mtime = 3, content = ''rtt,3''\<rparr>),
         (''logs/metrics_vegas_4'', \<lparr>mtime = 4, content = ''rtt,4''\<rparr>),
         (''logs/metrics_vivace_5.csv'', \<lparr>mtime = 5, content = ''rtt,5''\<rparr>)],
      now = 10\<rparr>"

definition malformed_world :: world where
  \<comment> \<open>the artifact of bbr is an empty file\<close>
  "malformed_world =
     \<lparr>files =
        [(''logs/metrics_bbr_1.csv'', \<lparr>mtime = 1, content = []\<rparr>),
         (''logs/metrics_vivace_2.csv'', \<lparr>mtime = 2, content = ''rtt,2''\<rparr>)],
      now = 10\<rparr>"



text \<open>A pattern without wildcards.\<close>

definition literal :: "string \<Rightarrow> bool" where
  "literal s \<longleftrightarrow> CHR ''*'' \<notin> set s \<and> CHR ''?'' \<notin> set s"


section \<open>Properties of _prepare_data\<close>

lemma prepare_frames_map: "prepare_frames rs frames = frames @ map prepare_frame rs"
  by (induction rs arbitrary: frames) simp_all

text \<open>
  Claim C8. \<open>_prepare_data\<close> applied to the empty sequence of results returns the empty
  table, and it raises on no input at all: the call of \<open>pd.concat\<close>, which raises on an
  empty list of frames, is guarded.
\<close>

theorem prepare_data_empty_never_raises:
  "prepare_data [] = Inr empty_df \<and> df_empty empty_df \<and> (\<exists>df. prepare_data rs = Inr df)"
  by (simp add: prepare_data_def pd_concat_def empty_df_def df_empty_def Let_def)

lemma set_unique: "set (unique xs) = set xs"
  by (induction xs rule: unique.induct) auto


lemma map_of_tabulate: "map_of (map (\<lambda>c. (c, f c)) xs) c = (if c \<in> set xs then Some (f c) else None)"
  by (induction xs) auto

lemma map_of_overwrite_same:
  "c \<in> fst ` set ps \<Longrightarrow> map_of (map (\<lambda>(n, old). if n = c then (n, vs) else (n, old)) ps) c = Some vs"
  by (induction ps) auto


lemma map_fst_overwrite:
  "map fst (map (\<lambda>(n, old). if n = c then (n, vs) else (n, old)) ps) = map fst ps"
  by (induction ps) auto

lemma map_of_append_new:
  "c \<notin> fst ` set ps \<Longrightarrow> map_of (ps @ [(c, vs)]) c' = (if c' = c then Some vs else map_of ps c')"
  by (induction ps) auto

lemma nrows_set_column [simp]: "nrows (set_column df c vs) = nrows df"
  by (simp add: set_column_def)

lemma nrows_set_scalar [simp]: "nrows (set_scalar df c v) = nrows df"
  by (simp add: set_scalar_def)

lemma map_of_set_column_same: "map_of (cols (set_column df c vs)) c = Some vs"
  by (simp add: set_column_def column_names_def map_of_overwrite_same map_of_append_new del: map_of_append)


lemma column_names_set_column:
  "column_names (set_column df c vs) =
     (if c \<in> set (column_names df) then column_names df else column_names df @ [c])"
  by (simp add: set_column_def column_names_def map_fst_overwrite del: map_map)

lemma nrows_prepare_frame [simp]: "nrows (prepare_frame r) = nrows (data r)"
  by (simp add: prepare_frame_def Let_def)

lemma timestamp_prepare_frame:
  "map_of (cols (prepare_frame r)) ''timestamp'' = Some (range_cells (nrows (data r)))"
  by (simp add: prepare_frame_def Let_def map_of_set_column_same)

lemma slice_concat:
  "i < length xss \<Longrightarrow>
   take (length (xss ! i)) (drop (sum_list (map length (take i xss))) (concat xss)) = xss ! i"
proof (induction xss arbitrary: i)
  case Nil then show ?case by simp
next
  case (Cons xs xss)
  show ?case
  proof (cases i)
    case 0 then show ?thesis by simp
  next
    case (Suc j)
    with Cons show ?thesis by simp
  qed
qed

lemma prepare_data_nonempty:
  "rs \<noteq> [] \<Longrightarrow> prepare_data rs =
     Inr \<lparr>nrows = sum_list (map (\<lambda>r. nrows (data r)) rs),
          cols = map (\<lambda>c. (c, concat (map (\<lambda>r. column_or_nan c (prepare_frame r)) rs)))
                   (unique (concat (map (\<lambda>r. column_names (prepare_frame r)) rs)))\<rparr>"
  by (simp add: prepare_data_def prepare_frames_map pd_concat_def Let_def comp_def)

lemma rows_of_concat:
  assumes "i < length rs"
    and "\<forall>j\<le>i. length (f (rs ! j)) = nrows (data (rs ! j))"
  shows "rows_of rs i (concat (map f rs)) = f (rs ! i)"
proof -
  have "map length (take i (map f rs)) = map (\<lambda>r. nrows (data r)) (take i rs)"
    using assms by (auto simp: list_eq_iff_nth_eq)
  then have off: "row_offset rs i = sum_list (map length (take i (map f rs)))"
    by (simp add: row_offset_def)
  have len: "nrows (data (rs ! i)) = length (map f rs ! i)"
    using assms by simp
  show ?thesis
    unfolding rows_of_def off len using slice_concat [of i "map f rs"] assms(1) by simp
qed

lemma column_of_prepare_data:
  assumes "r \<in> set rs" "c \<in> set (column_names (prepare_frame r))" "prepare_data rs = Inr df"
  shows "get_column df c = Inr (concat (map (\<lambda>r. column_or_nan c (prepare_frame r)) rs))"
proof -
  from assms(1) have "rs \<noteq> []" by auto
  moreover have "c \<in> set (unique (concat (map (\<lambda>r. column_names (prepare_frame r)) rs)))"
    using assms(1,2) by (auto simp: set_unique)
  ultimately show ?thesis
    using assms(3) by (auto simp: prepare_data_nonempty get_column_def map_of_tabulate)
qed

lemma column_names_prepare_frame:
  "set (column_names (prepare_frame r)) = set (column_names (data r)) \<union> {''scheme'', ''profile'', ''timestamp''}"
  by (auto simp: prepare_frame_def Let_def set_scalar_def column_names_set_column)



lemma timestamp_prepare_frame':
  "column_or_nan ''timestamp'' (prepare_frame r) = range_cells (nrows (data r))"
  by (simp add: column_or_nan_def timestamp_prepare_frame)



lemma length_range_cells [simp]: "length (range_cells n) = n"
  by (simp add: range_cells_def)

lemma sum_list_take_le:
  "sum_list (map f (take i xs)) \<le> (sum_list (map f xs) :: nat)"
proof -
  have "sum_list (map f (take i xs)) + sum_list (map f (drop i xs)) = sum_list (map f xs)"
    by (metis append_take_drop_id map_append sum_list_append)
  then show ?thesis by linarith
qed

text \<open>
  Claim C2. For a non-empty sequence of results, \<open>_prepare_data\<close> returns a table whose
  row count is the sum of the row counts of the results' tables. The rows of the
  \<open>i\<close>-th result start after the rows of the results before it, and the timestamp
  of the \<open>k\<close>-th of them is \<open>k\<close>: within each result the column reads
  \<open>0, 1, ..., n - 1\<close>.
\<close>

theorem prepare_data_rows_and_timestamps:
  assumes "rs \<noteq> []"
  shows "\<exists>df ts. prepare_data rs = Inr df
           \<and> nrows df = sum_list (map (\<lambda>r. nrows (data r)) rs)
           \<and> get_column df ''timestamp'' = Inr ts
           \<and> length ts = nrows df
           \<and> (\<forall>i<length rs. \<forall>k<nrows (data (rs ! i)).
                 ts ! (sum_list (map (\<lambda>r. nrows (data r)) (take i rs)) + k) = Num (of_nat k))"
proof -
  let ?ts = "concat (map (\<lambda>r. column_or_nan ''timestamp'' (prepare_frame r)) rs)"
  obtain df where df: "prepare_data rs = Inr df"
    and n: "nrows df = sum_list (map (\<lambda>r. nrows (data r)) rs)"
    using assms by (simp add: prepare_data_nonempty)
  from assms obtain r where r: "r \<in> set rs" by (cases rs) auto
  have col: "get_column df ''timestamp'' = Inr ?ts"
    using r df by (intro column_of_prepare_data) (auto simp: column_names_prepare_frame)
  have len: "length ?ts = nrows df"
    by (simp add: n length_concat comp_def timestamp_prepare_frame')
  have slice: "rows_of rs i ?ts = range_cells (nrows (data (rs ! i)))" if "i < length rs" for i
    using rows_of_concat [of i rs "\<lambda>r. column_or_nan ''timestamp'' (prepare_frame r)"] that
    by (simp add: timestamp_prepare_frame')
  have point: "?ts ! (sum_list (map (\<lambda>r. nrows (data r)) (take i rs)) + k) = Num (of_nat k)"
    if "i < length rs" "k < nrows (data (rs ! i))" for i k
  proof -
    let ?off = "sum_list (map (\<lambda>r. nrows (data r)) (take i rs))"
    have "?off \<le> length ?ts"
      unfolding len n by (rule sum_list_take_le)
    then have "?ts ! (?off + k) = take (nrows (data (rs ! i))) (drop ?off ?ts) ! k"
      using that(2) by simp
    also have "\<dots> = range_cells (nrows (data (rs ! i))) ! k"
      using slice [OF that(1)] by (simp add: rows_of_def row_offset_def)
    also have "\<dots> = Num (of_nat k)"
      using that(2) by (simp add: range_cells_def)
    finally show ?thesis .
  qed
  from df n col len point show ?thesis by blast
qed

theorem prepare_data_rows_and_timestamps_witness:
  "[sample_result, sample_result2] \<noteq> []
   \<and> (\<exists>df. prepare_data [sample_result, sample_result2] = Inr df
         \<and> nrows df = 5
         \<and> get_column df ''timestamp'' = Inr [Num 0, Num 1, Num 0, Num 1, Num 2])"
  using prepare_data_rows_and_timestamps [of "[sample_result, sample_result2]"]
  by (simp add: sample_result_def sample_result2_def sample_table_def sample_table2_def
      prepare_data_def pd_concat_def prepare_frame_def set_scalar_def set_column_def
      column_names_def column_or_nan_def get_column_def range_cells_def Let_def upt_rec)






section \<open>Properties of _run_single_test and run_all_tests\<close>

text \<open>
  Claim C1. The artifact of bbr is an empty file, which \<open>pd.read_csv\<close> rejects. The
  exception is raised in \<open>run_all_tests\<close> outside any handler: the run ends with the
  error, and the cells after it are not run.
\<close>

theorem malformed_artifact_aborts_run:
  "run_all_tests sample_env malformed_world = Inl ReadError"
  by code_simp

lemma test_cell_execute:
  "test_cell ev profile_id config algorithm_id (acc, w) =
     (case execute ev w profile_id config algorithm_id of
        Inl e \<Rightarrow> Inl e
      | Inr (None, w1) \<Rightarrow> Inr (acc, w1)
      | Inr (Some r, w1) \<Rightarrow> Inr (acc @ [r], w1))"
  by (simp add: test_cell_def execute_def split: sum.splits option.splits prod.splits)

lemma algorithms_loop_runAll:
  "algorithms_loop ev profile_id config algs (acc, w) =
     (case runAll ev (map (\<lambda>a. (profile_id, config, a)) algs) w of
        Inl e \<Rightarrow> Inl e
      | Inr (rs, w') \<Rightarrow> Inr (acc @ rs, w'))"
proof (induction algs arbitrary: acc w)
  case Nil
  then show ?case by simp
next
  case (Cons a algs)
  show ?case
    by (simp add: test_cell_execute Cons split: sum.splits option.splits prod.splits)
qed

lemma runAll_append:
  "runAll ev (xs @ ys) w =
     (case runAll ev xs w of
        Inl e \<Rightarrow> Inl e
      | Inr (rs, w1) \<Rightarrow>
          (case runAll ev ys w1 of Inl e \<Rightarrow> Inl e | Inr (rs', w2) \<Rightarrow> Inr (rs @ rs', w2)))"
proof (induction xs arbitrary: w)
  case Nil
  then show ?case by (simp split: sum.splits prod.splits)
next
  case (Cons c xs)
  obtain p cfg a where c: "c = (p, cfg, a)" by (cases c)
  show ?case
    by (simp add: c Cons split: sum.splits option.splits prod.splits)
qed

lemma profiles_loop_runAll:
  "profiles_loop ev profiles algs (acc, w) =
     (case runAll ev (matrix profiles algs) w of
        Inl e \<Rightarrow> Inl e
      | Inr (rs, w') \<Rightarrow> Inr (acc @ rs, w'))"
proof (induction profiles arbitrary: acc w)
  case Nil
  then show ?case by (simp add: matrix_def)
next
  case (Cons pc profiles)
  obtain p cfg where pc: "pc = (p, cfg)" by (cases pc)
  have m: "matrix ((p, cfg) # profiles) algs = map (\<lambda>a. (p, cfg, a)) algs @ matrix profiles algs"
    by (simp add: matrix_def)
  show ?case
    by (simp add: pc m algorithms_loop_runAll runAll_append Cons
        split: sum.splits prod.splits)
qed

lemma execute_key:
  "execute ev w p cfg a = Inr (Some r, w1) \<Longrightarrow> result_key r = (p, a)"
  by (auto simp: execute_def result_key_def split: sum.splits option.splits prod.splits if_splits)

lemma runAll_subseq:
  "runAll ev cells w = Inr (rs, w') \<Longrightarrow> subseq (map result_key rs) (map cell_key cells)"
proof (induction cells arbitrary: w rs)
  case Nil
  then show ?case by simp
next
  case (Cons c cells)
  obtain p cfg a where c: "c = (p, cfg, a)" by (cases c)
  from Cons.prems show ?case
    by (auto simp: c cell_key_def split: sum.splits option.splits prod.splits
        dest!: Cons.IH execute_key)
qed

lemma run_all_tests_runAll:
  "run_all_tests ev w = runAll ev (matrix PROFILES ALGORITHMS) w"
  by (simp add: run_all_tests_def profiles_loop_runAll split: sum.splits prod.splits)

text \<open>
  Claim C5. When the external invocation of a cell ends with a non-zero status,
  \<open>_run_single_test\<close> returns \<open>None\<close> and leaves the world as the invocation left it
  (nothing is copied), and the cell adds no result. The run goes on: with the remaining
  algorithms of the profile, then with the later profiles, and for a failing cell anywhere
  in the matrix \<open>run_all_tests\<close> returns the results of the cells before it followed by
  those of the cells after it.
\<close>

theorem failed_invocation_skips_cell:
  assumes "run_cmd ev (test_command algorithm_id profile_id config) w = (False, w1)"
  shows "run_single_test ev w algorithm_id profile_id config = Inr (None, w1)
       \<and> test_cell ev profile_id config algorithm_id (test_results, w) = Inr (test_results, w1)
       \<and> algorithms_loop ev profile_id config (algorithm_id # rest) (test_results, w)
           = algorithms_loop ev profile_id config rest (test_results, w1)
       \<and> profiles_loop ev ((profile_id, config) # later) (algorithm_id # rest) (test_results, w)
           = (case algorithms_loop ev profile_id config rest (test_results, w1) of
                Inl e \<Rightarrow> Inl e
              | Inr st \<Rightarrow> profiles_loop ev later (algorithm_id # rest) st)
       \<and> (\<forall>before after rs0 w0.
             matrix PROFILES ALGORITHMS = before @ (profile_id, config, algorithm_id) # after
             \<longrightarrow> runAll ev before w0 = Inr (rs0, w)
             \<longrightarrow> run_all_tests ev w0
                 = (case runAll ev after w1 of
                      Inl e \<Rightarrow> Inl e
                    | Inr (rs', w2) \<Rightarrow> Inr (rs0 @ rs', w2)))"
proof -
  have single: "run_single_test ev w algorithm_id profile_id config = Inr (None, w1)"
    using assms by (simp add: run_single_test_def)
  then have cell: "test_cell ev profile_id config algorithm_id (test_results, w) = Inr (test_results, w1)"
    by (simp add: test_cell_def)
  from single have ex: "execute ev w profile_id config algorithm_id = Inr (None, w1)"
    by (simp add: execute_def)
  have inner: "algorithms_loop ev profile_id config (algorithm_id # rest) (test_results, w)
           = algorithms_loop ev profile_id config rest (test_results, w1)"
    using cell by simp
  have outer: "profiles_loop ev ((profile_id, config) # later) (algorithm_id # rest) (test_results, w)
           = (case algorithms_loop ev profile_id config rest (test_results, w1) of
                Inl e \<Rightarrow> Inl e
              | Inr st \<Rightarrow> profiles_loop ev later (algorithm_id # rest) st)"
    using cell by simp
  have whole: "run_all_tests ev w0
                 = (case runAll ev after w1 of
                      Inl e \<Rightarrow> Inl e
                    | Inr (rs', w2) \<Rightarrow> Inr (rs0 @ rs', w2))"
    if "matrix PROFILES ALGORITHMS = before @ (profile_id, config, algorithm_id) # after"
      and "runAll ev before w0 = Inr (rs0, w)" for before after rs0 w0
    by (simp add: run_all_tests_runAll that runAll_append ex)
  from single cell inner outer whole show ?thesis by blast
qed

theorem failed_invocation_skips_cell_witness:
  "run_cmd flaky_env (test_command ''bbr'' ''low_latency'' (snd (hd PROFILES))) sample_world
     = (False, sample_world)
   \<and> run_single_test flaky_env sample_world ''bbr'' ''low_latency'' (snd (hd PROFILES))
     = Inr (None, sample_world)
   \<and> map_sum id (\<lambda>st. map result_key (fst st)) (run_all_tests flaky_env sample_world)
     = Inr [(''low_latency'', ''vivace''), (''high_latency'', ''bbr''), (''high_latency'', ''vivace'')]"
proof -
  have h: "run_cmd flaky_env (test_command ''bbr'' ''low_latency'' (snd (hd PROFILES))) sample_world
     = (False, sample_world)"
    by (simp add: flaky_env_def sample_env_def)
  have m: "matrix PROFILES ALGORITHMS
     = [] @ (''low_latency'', snd (hd PROFILES), ''bbr'') # tl (matrix PROFILES ALGORITHMS)"
    by (simp add: matrix_def PROFILES_def ALGORITHMS_def)
  have rest: "map_sum id (\<lambda>st. map result_key (fst st))
       (runAll flaky_env (tl (matrix PROFILES ALGORITHMS)) sample_world)
     = Inr [(''low_latency'', ''vivace''), (''high_latency'', ''bbr''), (''high_latency'', ''vivace'')]"
    by code_simp
  from failed_invocation_skips_cell [OF h, of "[]" "[]" "[]"]
  have single: "run_single_test flaky_env sample_world ''bbr'' ''low_latency'' (snd (hd PROFILES))
       = Inr (None, sample_world)"
    and whole: "run_all_tests flaky_env sample_world
       = (case runAll flaky_env (tl (matrix PROFILES ALGORITHMS)) sample_world of
            Inl e \<Rightarrow> Inl e
          | Inr (rs', w2) \<Rightarrow> Inr ([] @ rs', w2))"
    using m by auto
  show ?thesis
    using h single rest unfolding whole
    by (auto split: sum.splits prod.splits)
qed

text \<open>
  Claim C7. The nested loops of \<open>run_all_tests\<close> visit the cells in the order of the
  matrix (the profiles in the order of the configuration, and within each profile the
  algorithms in the order of the configuration), and the sequence returned is the one
  obtained by going through the cells in that order and appending the record of each cell
  that has one. For the configuration of the repository the order is written out; the
  keys of the returned records are a subsequence of it.
\<close>

theorem run_all_tests_in_matrix_order:
  "profiles_loop ev profiles algs ([], w) = runAll ev (matrix profiles algs) w
   \<and> run_all_tests ev w = runAll ev (matrix PROFILES ALGORITHMS) w
   \<and> map cell_key (matrix PROFILES ALGORITHMS)
       = [(''low_latency'', ''bbr''), (''low_latency'', ''vivace''), (''low_latency'', ''vegas''),
          (''high_latency'', ''bbr''), (''high_latency'', ''vivace''), (''high_latency'', ''vegas'')]
   \<and> (run_all_tests ev w = Inr (rs, w')
        \<longrightarrow> subseq (map result_key rs) (map cell_key (matrix PROFILES ALGORITHMS)))"
proof -
  have a: "profiles_loop ev profiles algs ([], w) = runAll ev (matrix profiles algs) w" for profiles algs
    by (simp add: profiles_loop_runAll split: sum.splits prod.splits)
  have b: "run_all_tests ev w = runAll ev (matrix PROFILES ALGORITHMS) w"
    by (simp add: run_all_tests_def a)
  have c: "map cell_key (matrix PROFILES ALGORITHMS)
       = [(''low_latency'', ''bbr''), (''low_latency'', ''vivace''), (''low_latency'', ''vegas''),
          (''high_latency'', ''bbr''), (''high_latency'', ''vivace''), (''high_latency'', ''vegas'')]"
    by (simp add: matrix_def PROFILES_def ALGORITHMS_def cell_key_def)
  have d: "run_all_tests ev w = Inr (rs, w')
        \<longrightarrow> subseq (map result_key rs) (map cell_key (matrix PROFILES ALGORITHMS))"
    unfolding b by (auto dest: runAll_subseq)
  from a b c d show ?thesis by blast
qed


theorem run_all_tests_in_matrix_order_witness:
  "map_sum id (\<lambda>st. map result_key (fst st)) (run_all_tests sample_env sample_world)
     = Inr [(''low_latency'', ''bbr''), (''low_latency'', ''vivace''),
            (''high_latency'', ''bbr''), (''high_latency'', ''vivace'')]
   \<and> subseq [(''low_latency'', ''bbr''), (''low_latency'', ''vivace''),
             (''high_latency'', ''bbr''), (''high_latency'', ''vivace'')]
        (map cell_key (matrix PROFILES ALGORITHMS))"
proof -
  have r: "map_sum id (\<lambda>st. map result_key (fst st)) (run_all_tests sample_env sample_world)
     = Inr [(''low_latency'', ''bbr''), (''low_latency'', ''vivace''),
            (''high_latency'', ''bbr''), (''high_latency'', ''vivace'')]"
    by code_simp
  then obtain rs w' where rw: "run_all_tests sample_env sample_world = Inr (rs, w')"
    and k: "map result_key rs = [(''low_latency'', ''bbr''), (''low_latency'', ''vivace''),
            (''high_latency'', ''bbr''), (''high_latency'', ''vivace'')]"
    by (cases "run_all_tests sample_env sample_world") auto
  from run_all_tests_in_matrix_order [of sample_env "[]" "[]" sample_world rs w'] rw
  have "subseq (map result_key rs) (map cell_key (matrix PROFILES ALGORITHMS))"
    by blast
  with r k show ?thesis by simp
qed

section \<open>Properties of the artifact location\<close>

lemma fnmatch_literal_prefix:
  "literal lit \<Longrightarrow> fnmatch n (lit @ ps) \<longleftrightarrow> (\<exists>r. n = lit @ r \<and> fnmatch r ps)"
proof (induction lit arbitrary: n)
  case Nil
  then show ?case by simp
next
  case (Cons c lit)
  then have c: "c \<noteq> CHR ''*''" "c \<noteq> CHR ''?''" and l: "literal lit"
    by (auto simp: literal_def)
  show ?case
  proof (cases n)
    case Nil
    with c show ?thesis by simp
  next
    case (Cons d ds)
    with c Cons.IH [OF l] show ?thesis by auto
  qed
qed

lemma fnmatch_Nil [simp]: "fnmatch n [] \<longleftrightarrow> n = []"
  by (cases n) simp_all

lemma fnmatch_literal:
  "literal lit \<Longrightarrow> fnmatch n lit \<longleftrightarrow> n = lit"
  using fnmatch_literal_prefix [of lit n "[]"] by auto

lemma fnmatch_star_literal:
  "literal lit \<Longrightarrow> fnmatch n (CHR ''*'' # lit) \<longleftrightarrow> suffix lit n"
proof (induction n)
  case Nil
  then show ?case by (auto simp: fnmatch_literal)
next
  case (Cons c cs)
  then show ?case by (auto simp: fnmatch_literal suffix_Cons)
qed

lemma fnmatch_ends_literal:
  "literal lit \<Longrightarrow> fnmatch n (p @ CHR ''*'' # lit) \<Longrightarrow> suffix lit n"
proof (induction p arbitrary: n)
  case Nil
  then show ?case by (simp add: fnmatch_star_literal)
next
  case (Cons c p)
  note outer = Cons
  show ?case
  proof (cases "c = CHR ''*''")
    case True
    from outer(2,3) show ?thesis
    proof (induction n)
      case Nil
      then show ?case using outer(1) [of "[]"] True by simp
    next
      case (Cons d ds)
      then show ?case using outer(1) [of "d # ds"] True by (auto simp: suffix_Cons)
    qed
  next
    case False
    with outer show ?thesis
      by (cases n) (auto simp: suffix_Cons split: if_splits)
  qed
qed

lemma literal_append [simp]: "literal (xs @ ys) \<longleftrightarrow> literal xs \<and> literal ys"
  by (auto simp: literal_def)

lemma plain_name_literal: "plain_name s \<Longrightarrow> literal s"
  by (auto simp: plain_name_def literal_def)

lemma fnmatch_metrics_pattern:
  assumes "plain_name a"
  shows "fnmatch b (''metrics_'' @ a @ ''_*.csv'') \<longleftrightarrow> (\<exists>s. b = metrics_name a s)"
proof -
  have lit: "literal (''metrics_'' @ a @ ''_'')" "literal ''.csv''"
    using plain_name_literal [OF assms] by (simp_all add: literal_def)
  have "fnmatch b ((''metrics_'' @ a @ ''_'') @ CHR ''*'' # ''.csv'')
      \<longleftrightarrow> (\<exists>r. b = (''metrics_'' @ a @ ''_'') @ r \<and> suffix ''.csv'' r)"
    by (simp only: fnmatch_literal_prefix [OF lit(1)] fnmatch_star_literal [OF lit(2)])
  also have "\<dots> \<longleftrightarrow> (\<exists>s. b = metrics_name a s)"
    by (auto simp: metrics_name_def suffix_def)
  finally show ?thesis by simp
qed

lemma fnmatch_metrics_csv:
  "fnmatch b (''metrics_'' @ a @ ''_*.csv'') \<Longrightarrow> suffix ''.csv'' b"
  using fnmatch_ends_literal [of "''.csv''" b "''metrics_'' @ a @ ''_''"]
  by (simp add: literal_def)


lemma fnmatch_metrics_visible:
  "fnmatch b (''metrics_'' @ a @ ''_*.csv'') \<Longrightarrow> \<not> hidden b"
  by (cases b) (auto simp: hidden_def)

lemma metric_logs_set:
  "set (metric_logs w a) =
     (\<lambda>b. ''logs/'' @ b) ` {b \<in> set (listdir w ''logs''). fnmatch b (''metrics_'' @ a @ ''_*.csv'')}"
  using fnmatch_metrics_visible [of _ a] by (auto simp: metric_logs_def glob_def)




lemma metric_logs_csv:
  "p \<in> set (metric_logs w a) \<Longrightarrow> suffix ''.csv'' p"
proof -
  assume "p \<in> set (metric_logs w a)"
  then obtain b where "p = ''logs/'' @ b" "fnmatch b (''metrics_'' @ a @ ''_*.csv'')"
    unfolding metric_logs_set by blast
  then have "p = ''logs/'' @ b" "suffix ''.csv'' b"
    using fnmatch_metrics_csv by blast+
  then show ?thesis
    by (metis suffix_append)
qed






text \<open>
  Claim C9. Only files whose names end in \<open>.csv\<close> are located: a path without that
  ending is never among the located files, for any algorithm id. When the invocation
  succeeds and every file of the logs directory whose name starts with
  \<open>metrics_A_\<close> lacks the ending, nothing is located and the cell is skipped.
\<close>

theorem only_csv_artifacts_are_located:
  "(\<forall>p. \<not> suffix ''.csv'' p \<longrightarrow> p \<notin> set (metric_logs w A))
   \<and> (plain_name A
        \<longrightarrow> (\<forall>b\<in>set (listdir w1 ''logs''). prefix (''metrics_'' @ A @ ''_'') b \<longrightarrow> \<not> suffix ''.csv'' b)
        \<longrightarrow> run_cmd ev (test_command A P config) w = (True, w1)
        \<longrightarrow> metric_logs w1 A = [] \<and> run_single_test ev w A P config = Inr (None, w1))"
proof -
  have a: "\<forall>p. \<not> suffix ''.csv'' p \<longrightarrow> p \<notin> set (metric_logs w A)"
    using metric_logs_csv by blast
  have b: "metric_logs w1 A = [] \<and> run_single_test ev w A P config = Inr (None, w1)"
    if pl: "plain_name A"
      and no: "\<forall>b\<in>set (listdir w1 ''logs''). prefix (''metrics_'' @ A @ ''_'') b \<longrightarrow> \<not> suffix ''.csv'' b"
      and ok: "run_cmd ev (test_command A P config) w = (True, w1)"
  proof -
    have "set (metric_logs w1 A) = {}"
    proof (rule ccontr)
      assume "set (metric_logs w1 A) \<noteq> {}"
      then obtain b where b: "b \<in> set (listdir w1 ''logs'')" "fnmatch b (''metrics_'' @ A @ ''_*.csv'')"
        unfolding metric_logs_set by blast
      then obtain s where "b = metrics_name A s"
        using fnmatch_metrics_pattern [OF pl] by blast
      then have "prefix (''metrics_'' @ A @ ''_'') b" "suffix ''.csv'' b"
        by (simp_all add: metrics_name_def suffix_def prefix_def)
      with no b(1) show False by blast
    qed
    then have "metric_logs w1 A = []" by simp
    with ok show ?thesis by (simp add: run_single_test_def)
  qed
  from a b show ?thesis by blast
qed

theorem only_csv_artifacts_are_located_witness:
  "''logs/metrics_vegas_4'' \<in> fst ` set (files sample_world)
   \<and> \<not> suffix ''.csv'' ''logs/metrics_vegas_4''
   \<and> plain_name ''vegas''
   \<and> listdir sample_world ''logs''
       = [''metrics_bbr_1.csv'', ''metrics_bbr_2.csv'', ''metrics_bbrplus_3.csv'',
          ''metrics_vegas_4'', ''metrics_vivace_5.csv'']
   \<and> run_cmd sample_env (test_command ''vegas'' ''low_latency'' (snd (hd PROFILES))) sample_world
       = (True, sample_world)
   \<and> metric_logs sample_world ''vegas'' = []
   \<and> run_single_test sample_env sample_world ''vegas'' ''low_latency'' (snd (hd PROFILES))
       = Inr (None, sample_world)"
proof -
  have l: "listdir sample_world ''logs''
       = [''metrics_bbr_1.csv'', ''metrics_bbr_2.csv'', ''metrics_bbrplus_3.csv'',
          ''metrics_vegas_4'', ''metrics_vivace_5.csv'']"
    by code_simp
  have f: "''logs/metrics_vegas_4'' \<in> fst ` set (files sample_world)"
    by (simp add: sample_world_def)
  have s: "\<not> suffix ''.csv'' ''logs/metrics_vegas_4''"
    by (simp add: suffix_def append_eq_Cons_conv)
  have p: "plain_name ''vegas''"
    by (simp add: plain_name_def)
  have no: "\<forall>b\<in>set (listdir sample_world ''logs'').
      prefix (''metrics_'' @ ''vegas'' @ ''_'') b \<longrightarrow> \<not> suffix ''.csv'' b"
    unfolding l by (simp add: suffix_def append_eq_Cons_conv)
  have ok: "run_cmd sample_env (test_command ''vegas'' ''low_latency'' (snd (hd PROFILES))) sample_world
       = (True, sample_world)"
    by (simp add: sample_env_def)
  from only_csv_artifacts_are_located [of sample_world "''vegas''" sample_world sample_env
      "''low_latency''" "snd (hd PROFILES)"] p no ok
  have "metric_logs sample_world ''vegas'' = []
      \<and> run_single_test sample_env sample_world ''vegas'' ''low_latency'' (snd (hd PROFILES))
          = Inr (None, sample_world)"
    by blast
  with l f s p ok show ?thesis by simp
qed




section \<open>Properties of _generate_rtt_summary\<close>

subsection \<open>Rounding to float64\<close>

lemma pow2_powi: "pow2 e = 2 powi e"
  by (simp add: pow2_def power_int_def inverse_eq_divide power_one_over)

lemma pow2_pos [simp]: "0 < pow2 e"
  by (simp add: pow2_powi)

lemma pow2_nonzero [simp]: "pow2 e \<noteq> 0"
  using pow2_pos [of e] by linarith

lemma abs_pow2 [simp]: "\<bar>pow2 e\<bar> = pow2 e"
  using pow2_pos [of e] by linarith







lemma round_half_even_int [simp]: "round_half_even (of_int k) = k"
  by (simp add: round_half_even_def)























subsection \<open>The summary rows\<close>


















end
